theory Spec2Isabelle
  imports Complex_Main
begin

section \<open>JavaScript values\<close>

text \<open>
  The subscription server of \<^verbatim>\<open>src/lib/serverCore.js\<close> handles loosely structured
  JavaScript values: the payloads its event streams yield and the variables of a
  subscription request. They are modelled by a datatype of values. A number is a double:
  not-a-number, an infinity, or a finite value (the two zeros are one value here, as they
  are for \<^verbatim>\<open>===\<close>). Arrays and objects carry the address of their
  allocation, which is what \<^verbatim>\<open>===\<close> compares; an object lists its own enumerable
  properties in the order \<^verbatim>\<open>Object.entries\<close> reports them. Inherited properties are
  not modelled (the results of the query engine are objects without a prototype).
\<close>

datatype jsnum = NaN | PosInf | NegInf | Fin rat

datatype jsval =
    JUndefined
  | JNull
  | JBool bool
  | JNum jsnum
  | JStr string
  | JArr nat "jsval list"
  | JObj nat "(string \<times> jsval) list"

datatype error = TypeError

text \<open>\<^verbatim>\<open>x == null\<close> holds of \<^verbatim>\<open>null\<close> and \<^verbatim>\<open>undefined\<close> only.\<close>

fun nullish :: "jsval \<Rightarrow> bool" where
  "nullish JUndefined = True"
| "nullish JNull = True"
| "nullish _ = False"

text \<open>\<^verbatim>\<open>typeof x === 'object'\<close>: objects, arrays, and \<^verbatim>\<open>null\<close>.\<close>

fun typeof_object :: "jsval \<Rightarrow> bool" where
  "typeof_object JNull = True"
| "typeof_object (JArr _ _) = True"
| "typeof_object (JObj _ _) = True"
| "typeof_object _ = False"

text \<open>The conversion to a boolean that \<^verbatim>\<open>if (x)\<close> and \<^verbatim>\<open>x || y\<close> apply.\<close>

fun truthy :: "jsval \<Rightarrow> bool" where
  "truthy JUndefined = False"
| "truthy JNull = False"
| "truthy (JBool b) = b"
| "truthy (JNum n) = (n \<noteq> NaN \<and> n \<noteq> Fin 0)"
| "truthy (JStr s) = (s \<noteq> [])"
| "truthy (JArr _ _) = True"
| "truthy (JObj _ _) = True"

text \<open>
  Strict equality \<^verbatim>\<open>===\<close>: values of different types differ, not-a-number equals
  nothing, strings and booleans compare by value, arrays and objects by address.
\<close>

fun num_eq :: "jsnum \<Rightarrow> jsnum \<Rightarrow> bool" where
  "num_eq NaN _ = False"
| "num_eq _ NaN = False"
| "num_eq a b = (a = b)"

fun strict_eq :: "jsval \<Rightarrow> jsval \<Rightarrow> bool" where
  "strict_eq JUndefined JUndefined = True"
| "strict_eq JNull JNull = True"
| "strict_eq (JBool a) (JBool b) = (a = b)"
| "strict_eq (JNum a) (JNum b) = num_eq a b"
| "strict_eq (JStr a) (JStr b) = (a = b)"
| "strict_eq (JArr r _) (JArr r' _) = (r = r')"
| "strict_eq (JObj r _) (JObj r' _) = (r = r')"
| "strict_eq _ _ = False"

text \<open>The decimal name of an array index, as property keys spell it.\<close>

definition digit_char :: "nat \<Rightarrow> char" where
  "digit_char d = ''0123456789'' ! d"

fun dec_string :: "nat \<Rightarrow> string" where
  "dec_string n =
     (if n < 10 then [digit_char n] else dec_string (n div 10) @ [digit_char (n mod 10)])"

declare dec_string.simps [simp del]

definition indexed :: "'a list \<Rightarrow> (string \<times> 'a) list" where
  "indexed xs = map (\<lambda>i. (dec_string i, xs ! i)) [0..<length xs]"

text \<open>
  \<^verbatim>\<open>Object.entries(x)\<close>: a TypeError on \<^verbatim>\<open>null\<close> and \<^verbatim>\<open>undefined\<close>, nothing for
  a boolean or a number, the indexed characters of a string, the indexed elements of an
  array, the own properties of an object.
\<close>

fun object_entries :: "jsval \<Rightarrow> error + (string \<times> jsval) list" where
  "object_entries JUndefined = Inl TypeError"
| "object_entries JNull = Inl TypeError"
| "object_entries (JBool _) = Inr []"
| "object_entries (JNum _) = Inr []"
| "object_entries (JStr s) = Inr (indexed (map (\<lambda>c. JStr [c]) s))"
| "object_entries (JArr _ xs) = Inr (indexed xs)"
| "object_entries (JObj _ ps) = Inr ps"

text \<open>
  The property read \<^verbatim>\<open>x[k]\<close>: a TypeError on \<^verbatim>\<open>null\<close> and \<^verbatim>\<open>undefined\<close>; on
  a string or an array the length and the elements; on an object the own property of
  that name; \<^verbatim>\<open>undefined\<close> otherwise.
\<close>

definition length_or_index :: "jsval list \<Rightarrow> string \<Rightarrow> jsval" where
  "length_or_index xs k =
     (if k = ''length'' then JNum (Fin (of_nat (length xs)))
      else (case map_of (indexed xs) k of Some v \<Rightarrow> v | None \<Rightarrow> JUndefined))"

fun js_get :: "jsval \<Rightarrow> string \<Rightarrow> error + jsval" where
  "js_get JUndefined k = Inl TypeError"
| "js_get JNull k = Inl TypeError"
| "js_get (JBool _) k = Inr JUndefined"
| "js_get (JNum _) k = Inr JUndefined"
| "js_get (JStr s) k = Inr (length_or_index (map (\<lambda>c. JStr [c]) s) k)"
| "js_get (JArr _ xs) k = Inr (length_or_index xs k)"
| "js_get (JObj _ ps) k = Inr (case map_of ps k of Some v \<Rightarrow> v | None \<Rightarrow> JUndefined)"

section \<open>The event filter\<close>

text \<open>
  \<^verbatim>\<open>variableEntries.every(([k, v]) => payloadData[k] === v)\<close>: the entries are
  tried in order, the first mismatch ends the scan with \<^verbatim>\<open>false\<close>, and a failing
  property read ends it with the error.
\<close>

fun every_match :: "jsval \<Rightarrow> (string \<times> jsval) list \<Rightarrow> error + bool" where
  "every_match payloadData [] = Inr True"
| "every_match payloadData ((variableKey, variableValue) # rest) =
     (case js_get payloadData variableKey of
        Inl e \<Rightarrow> Inl e
      | Inr x \<Rightarrow> if strict_eq x variableValue then every_match payloadData rest else Inr False)"

text \<open>
  \<^verbatim>\<open>Object.entries(payload.data)[0].pop()\<close>: the value of the first entry; with no
  entry, \<^verbatim>\<open>undefined.pop()\<close> is a TypeError.
\<close>

definition first_entry_value :: "jsval \<Rightarrow> error + jsval" where
  "first_entry_value d =
     (case object_entries d of
        Inl e \<Rightarrow> Inl e
      | Inr [] \<Rightarrow> Inl TypeError
      | Inr ((_, x) # _) \<Rightarrow> Inr x)"

text \<open>
  \<^verbatim>\<open>shouldPublishSubscription(payload, variables)\<close>. The guard reads
  \<^verbatim>\<open>payload.data\<close> only of a payload whose type is \<^verbatim>\<open>'object'\<close>. The lines it
  writes to the log are recorded by \<open>consume\<close> below.
\<close>

definition payload_is_null :: "jsval \<Rightarrow> bool" where
  "payload_is_null payload =
     (nullish payload \<or>
      (typeof_object payload \<and>
       (case js_get payload ''data'' of Inl _ \<Rightarrow> False | Inr d \<Rightarrow> nullish d)))"

definition shouldPublishSubscription :: "jsval \<Rightarrow> jsval \<Rightarrow> error + bool" where
  "shouldPublishSubscription payload variables =
     (if payload_is_null payload then Inr False
      else (case object_entries variables of
        Inl e \<Rightarrow> Inl e
      | Inr variableEntries \<Rightarrow>
          if variableEntries = [] then Inr True
          else (case js_get payload ''data'' of
            Inl e \<Rightarrow> Inl e
          | Inr d \<Rightarrow>
              (case first_entry_value d of
                 Inl e \<Rightarrow> Inl e
               | Inr payloadData \<Rightarrow> every_match payloadData variableEntries))))"

section \<open>The subscription server\<close>

text \<open>
  Client and topic identities are strings; a query document is opaque. The execution
  context is read for the client identity (\<^verbatim>\<open>context.jwt.sub\<close>) and for
  \<^verbatim>\<open>context.appsyncErrors\<close>, as it stands once the query engine has answered
  (\<^verbatim>\<open>undefined\<close> when no resolver has set it).
\<close>

record exec_context =
  jwt_sub :: string
  appsyncErrors :: jsval

text \<open>
  A registration object as the store holds it: every stored registration has received
  its \<^verbatim>\<open>asyncIterator\<close> (the identity of an event stream) and its
  \<^verbatim>\<open>isRegistered\<close> flag.
\<close>

record registration =
  r_context :: exec_context
  documentAST :: string
  variables :: jsval
  topicId :: string
  asyncIterator :: nat
  isRegistered :: bool

text \<open>
  A consumption loop suspended in \<^verbatim>\<open>await asyncIterator.next()\<close>, with the constants
  it took from the registration when it started.
\<close>

record loop =
  lp_clientId :: string
  lp_topicId :: string
  lp_variables :: jsval
  lp_asyncIterator :: nat

text \<open>A pending timer and the event stream its callback cancels.\<close>

record timer =
  t_id :: nat
  t_due :: nat
  t_iterator :: nat

text \<open>
  The message handed to \<^verbatim>\<open>mqttServer.publish\<close>; \<open>m_payload\<close> is the value that
  \<^verbatim>\<open>JSON.stringify\<close> serialises.
\<close>

record message =
  m_topic :: string
  m_payload :: jsval
  m_qos :: nat
  m_retain :: bool

datatype level = Info | Warn | Err

text \<open>
  The state: the two maps of the \<^verbatim>\<open>SubscriptionServer\<close> (\<open>registrations\<close>,
  \<open>iteratorTimeout\<close>) and its \<open>mqttURL\<close>, and what the server acts on: the event
  streams that are not cancelled or exhausted (\<open>live\<close>), the consumption loops waiting
  for an event in the order of their pending \<^verbatim>\<open>next()\<close> calls, the pending timers,
  the messages published, the lines logged (level and first argument of each
  \<^verbatim>\<open>consola\<close> call), and the clock in milliseconds.
\<close>

record world =
  mqttURL :: string
  registrations :: "string \<rightharpoonup> registration list"
  iteratorTimeout :: "string \<rightharpoonup> nat"
  live :: "nat set"
  next_iterator :: nat
  loops :: "loop list"
  timers :: "timer list"
  next_timer :: nat
  published :: "message list"
  console :: "(level \<times> string) list"
  clock :: nat

definition TopicExpires :: nat where
  "TopicExpires = 1000 * 60 * 100"

definition ConnectTimeout :: nat where
  "ConnectTimeout = 1000 * 60 * 2"

definition consola :: "level \<Rightarrow> string \<Rightarrow> world \<Rightarrow> world" where
  "consola lv msg w = w\<lparr>console := console w @ [(lv, msg)]\<rparr>"

subsection \<open>The query engine's event streams\<close>

text \<open>
  The answer of the engine's \<^verbatim>\<open>subscribe\<close> is an input of the model: an event
  stream, or an execution result with its \<^verbatim>\<open>errors\<close> array (an object, hence
  truthy) and its \<^verbatim>\<open>data\<close>. The handlers are taken one at a time: a handler
  that awaits the engine's answer resumes with it before another event is handled. A
  promise that the engine rejects is not modelled.
\<close>

datatype subscribe_result = Stream | Errors jsval jsval

definition subscribeToGraphQL ::
  "subscribe_result \<Rightarrow> world \<Rightarrow> (jsval \<times> jsval + nat) \<times> world" where
  "subscribeToGraphQL answer w =
     (case answer of
        Errors errs d \<Rightarrow> (Inl (errs, d), w)
      | Stream \<Rightarrow>
          (Inr (next_iterator w),
           w\<lparr>live := insert (next_iterator w) (live w),
             next_iterator := Suc (next_iterator w)\<rparr>))"

text \<open>
  \<^verbatim>\<open>asyncIterator.return()\<close>: the stream is cancelled, and every pending
  \<^verbatim>\<open>next()\<close> on it reports completion, which ends the loop that waits for it.
\<close>

definition iterator_return :: "nat \<Rightarrow> world \<Rightarrow> world" where
  "iterator_return it w =
     w\<lparr>live := live w - {it}, loops := filter (\<lambda>l. lp_asyncIterator l \<noteq> it) (loops w)\<rparr>"

text \<open>
  \<^verbatim>\<open>await asyncIterator.next()\<close> at the head of the loop: on a live stream the loop
  waits; on a cancelled or exhausted one \<^verbatim>\<open>done\<close> is reported and the loop breaks.
\<close>

definition await_next :: "loop \<Rightarrow> world \<Rightarrow> world" where
  "await_next l w = (if lp_asyncIterator l \<in> live w then w\<lparr>loops := loops w @ [l]\<rparr> else w)"

subsection \<open>Timers\<close>

definition setTimeout :: "nat \<Rightarrow> nat \<Rightarrow> world \<Rightarrow> nat \<times> world" where
  "setTimeout it delay w =
     (next_timer w,
      w\<lparr>timers := timers w @ [\<lparr>t_id = next_timer w, t_due = clock w + delay, t_iterator = it\<rparr>],
        next_timer := Suc (next_timer w)\<rparr>)"

definition clearTimeout :: "nat \<Rightarrow> world \<Rightarrow> world" where
  "clearTimeout t w = w\<lparr>timers := filter (\<lambda>x. t_id x \<noteq> t) (timers w)\<rparr>"

text \<open>A timer fires: it is no longer pending, and its callback cancels its stream.\<close>

definition fire :: "timer \<Rightarrow> world \<Rightarrow> world" where
  "fire t w = iterator_return (t_iterator t) (clearTimeout (t_id t) w)"

definition elapse :: "nat \<Rightarrow> world \<Rightarrow> world" where
  "elapse ms w =
     (let w1 = w\<lparr>clock := clock w + ms\<rparr>
      in fold fire (filter (\<lambda>t. t_due t \<le> clock w1) (timers w1)) w1)"

subsection \<open>The consumption loop\<close>

definition shouldPublish_log :: "jsval \<Rightarrow> jsval \<Rightarrow> (level \<times> string) list" where
  "shouldPublish_log payload vs =
     (if payload_is_null payload then [(Info, ''Subscribe payload is null skipping publish'')]
      else if shouldPublishSubscription payload vs = Inr False
      then [(Info, ''subscribe payload did not match variables''), (Info, ''variables'')]
      else [])"

definition publish :: "message \<Rightarrow> world \<Rightarrow> world" where
  "publish m w = w\<lparr>published := published w @ [m]\<rparr>"

text \<open>
  One turn of the \<^verbatim>\<open>while (true)\<close> loop of \<^verbatim>\<open>onClientSubscribed\<close>, from the
  event that \<^verbatim>\<open>next()\<close> resolved with to the next \<^verbatim>\<open>await\<close>. A TypeError of the
  filter leaves the loop (the handler's promise is rejected); the stream is not
  cancelled.
\<close>

definition consume :: "loop \<Rightarrow> jsval \<Rightarrow> world \<Rightarrow> world" where
  "consume l payload w =
     (let w1 = w\<lparr>console := console w @ shouldPublish_log payload (lp_variables l)\<rparr>
      in case shouldPublishSubscription payload (lp_variables l) of
           Inl e \<Rightarrow> w1
         | Inr False \<Rightarrow> await_next l (consola Info ''Skipping publish'' w1)
         | Inr True \<Rightarrow>
             await_next l
               (publish \<lparr>m_topic = lp_topicId l, m_payload = payload, m_qos = 0, m_retain = False\<rparr>
                 (consola Info ''publish'' (consola Info ''Publish'' w1))))"

text \<open>
  The engine produces an event on a stream: the oldest pending \<^verbatim>\<open>next()\<close> on it
  resolves with the event, and the loop that made the call runs one turn. Without a
  pending call nothing happens to the server: what the engine does with an event that
  nobody waits for is its own matter.
\<close>

definition deliver :: "nat \<Rightarrow> jsval \<Rightarrow> world \<Rightarrow> world" where
  "deliver it payload w =
     (if it \<notin> live w then w
      else (case List.find (\<lambda>l. lp_asyncIterator l = it) (loops w) of
        None \<Rightarrow> w
      | Some l \<Rightarrow> consume l payload (w\<lparr>loops := remove1 l (loops w)\<rparr>)))"

definition start_loop :: "string \<Rightarrow> registration \<Rightarrow> world \<Rightarrow> world" where
  "start_loop clientId reg w =
     await_next
       \<lparr>lp_clientId = clientId, lp_topicId = topicId reg, lp_variables = variables reg,
        lp_asyncIterator = asyncIterator reg\<rparr> w"

subsection \<open>The handlers of the broker's lifecycle events\<close>

text \<open>
  \<^verbatim>\<open>regs.find(({ topicId }) => topicId === topic)\<close> yields the first registration
  of the topic; the handlers mutate that object in place.
\<close>

fun update_first :: "('a \<Rightarrow> bool) \<Rightarrow> ('a \<Rightarrow> 'a) \<Rightarrow> 'a list \<Rightarrow> 'a list" where
  "update_first P f [] = []"
| "update_first P f (x # xs) = (if P x then f x # xs else x # update_first P f xs)"

definition onClientConnect :: "string \<Rightarrow> world \<Rightarrow> world" where
  "onClientConnect clientId w =
     (let w1 = consola Info (''client connected to subscription server ('' @ clientId @ '')'') w
      in case iteratorTimeout w1 clientId of
           None \<Rightarrow> w1
         | Some timeout \<Rightarrow> clearTimeout timeout w1)"

definition onClientSubscribed :: "string \<Rightarrow> string \<Rightarrow> subscribe_result \<Rightarrow> world \<Rightarrow> world" where
  "onClientSubscribed topic clientId answer w =
     (let w1 = consola Info (''client ('' @ clientId @ '') subscribed to : '' @ topic) w
      in case registrations w1 clientId of
           None \<Rightarrow> consola Err ''No registration for clientId'' w1
         | Some regs \<Rightarrow>
             (case List.find (\<lambda>r. topicId r = topic) regs of
                None \<Rightarrow> consola Err (''Not subscribed to topicId: '' @ topic @ '' for clientId'') w1
              | Some reg \<Rightarrow>
                  if \<not> isRegistered reg then
                    (case subscribeToGraphQL answer w1 of
                       (Inl _, w2) \<Rightarrow> consola Err ''Error(s) subcribing via graphql'' w2
                     | (Inr it, w2) \<Rightarrow>
                         start_loop clientId (reg\<lparr>asyncIterator := it, isRegistered := True\<rparr>)
                           (w2\<lparr>registrations := (registrations w2)(clientId \<mapsto>
                               update_first (\<lambda>r. topicId r = topic)
                                 (\<lambda>r. r\<lparr>asyncIterator := it, isRegistered := True\<rparr>) regs)\<rparr>))
                  else start_loop clientId reg w1))"

definition onClientUnsubscribed :: "string \<Rightarrow> string \<Rightarrow> world \<Rightarrow> world" where
  "onClientUnsubscribed topic clientId w =
     (let w1 = consola Info (''Client ('' @ clientId @ '') unsubscribed to : '' @ topic) w
      in case registrations w1 clientId of
           None \<Rightarrow> consola Warn (''Unsubscribe topic: '' @ topic @ '' from client with unknown id'') w1
         | Some regs \<Rightarrow>
             (case List.find (\<lambda>r. topicId r = topic) regs of
                None \<Rightarrow> consola Warn (''Unsubscribe unregistered topic '' @ topic @ '' from client'') w1
              | Some reg \<Rightarrow>
                  (let w2 = iterator_return (asyncIterator reg) w1
                   in w2\<lparr>registrations := (registrations w2)(clientId \<mapsto>
                          update_first (\<lambda>r. topicId r = topic) (\<lambda>r. r\<lparr>isRegistered := False\<rparr>) regs)\<rparr>)))"

definition onClientDisconnect :: "string \<Rightarrow> world \<Rightarrow> world" where
  "onClientDisconnect clientId w =
     (let w1 = consola Info (''Client disconnected to subscription server ('' @ clientId @ '')'') w
      in case registrations w1 clientId of
           None \<Rightarrow> consola Warn ''Disconnecting client with unknown id'' w1
         | Some _ \<Rightarrow> w1)"

subsection \<open>Registration\<close>

record mqtt_connection =
  c_url :: string
  c_topics :: "string list"
  c_client :: string

record new_subscription =
  s_topic :: string
  s_expireTime :: nat

text \<open>
  The two answers of \<^verbatim>\<open>register\<close>: \<^verbatim>\<open>{ errors, data }\<close>, or the handshake
  \<^verbatim>\<open>{ extensions: { subscription: { mqttConnections, newSubscriptions } }, data: null,
  errors: null }\<close> with \<open>newSubscriptions\<close> as its list of entries.
\<close>

datatype response =
    ErrorResponse jsval jsval
  | Handshake "mqtt_connection list" "(string \<times> new_subscription) list"

text \<open>\<^verbatim>\<open>this.registrations.get(clientId) || []\<close>: the registrations of a client.\<close>

definition client_registrations :: "world \<Rightarrow> string \<Rightarrow> registration list" where
  "client_registrations w clientId =
     (case registrations w clientId of None \<Rightarrow> [] | Some regs \<Rightarrow> regs)"

text \<open>
  \<^verbatim>\<open>register({ documentAST, variables, context })\<close>. The fresh \<^verbatim>\<open>uuid()\<close> is
  the parameter \<open>topic\<close>; \<^verbatim>\<open>Date.now()\<close> is the clock.
\<close>

definition register ::
  "string \<Rightarrow> jsval \<Rightarrow> exec_context \<Rightarrow> string \<Rightarrow> subscribe_result \<Rightarrow> world \<Rightarrow> response \<times> world" where
  "register doc vs ctx topic answer w =
     (let clientId = jwt_sub ctx;
          w1 = consola Info ''Register'' w
      in case subscribeToGraphQL answer w1 of
           (Inl (errs, d), w2) \<Rightarrow>
             (ErrorResponse (if truthy (appsyncErrors ctx) then appsyncErrors ctx else errs)
                (if truthy d then d else JNull), w2)
         | (Inr it, w2) \<Rightarrow>
             (let registration = \<lparr>r_context = ctx, documentAST = doc, variables = vs,
                    topicId = topic, asyncIterator = it, isRegistered = True\<rparr>;
                  currentRegistrations = client_registrations w2 clientId @ [registration];
                  w3 = w2\<lparr>registrations := (registrations w2)(clientId \<mapsto> currentRegistrations)\<rparr>;
                  (timeout, w4) = setTimeout it ConnectTimeout w3;
                  w5 = w4\<lparr>iteratorTimeout := (iteratorTimeout w4)(clientId \<mapsto> timeout)\<rparr>;
                  w6 = consola Info ''subscription handshake sent'' w5
              in (Handshake
                    [\<lparr>c_url = mqttURL w6, c_topics = map topicId currentRegistrations,
                      c_client = clientId\<rparr>]
                    [(topic, \<lparr>s_topic = topic, s_expireTime = clock w6 + TopicExpires\<rparr>)],
                  w6)))"

subsection \<open>Runs\<close>

text \<open>
  What happens to the server, one event at a time: a registration request with the
  engine's answer, the broker's lifecycle events, the passing of time, an event produced
  on a stream, and the exhaustion of a stream.
\<close>

datatype event =
    Register string jsval exec_context string subscribe_result
  | ClientConnected string
  | ClientDisconnected string
  | Subscribed string string subscribe_result
  | Unsubscribed string string
  | Elapse nat
  | Yield nat jsval
  | Exhaust nat

fun step :: "event \<Rightarrow> world \<Rightarrow> world" where
  "step (Register doc vs ctx topic answer) w = snd (register doc vs ctx topic answer w)"
| "step (ClientConnected clientId) w = onClientConnect clientId w"
| "step (ClientDisconnected clientId) w = onClientDisconnect clientId w"
| "step (Subscribed topic clientId answer) w = onClientSubscribed topic clientId answer w"
| "step (Unsubscribed topic clientId) w = onClientUnsubscribed topic clientId w"
| "step (Elapse ms) w = elapse ms w"
| "step (Yield it payload) w = deliver it payload w"
| "step (Exhaust it) w = iterator_return it w"

definition run :: "event list \<Rightarrow> world \<Rightarrow> world" where
  "run evs w = fold step evs w"

text \<open>The server as its constructor leaves it.\<close>

definition new_server :: "string \<Rightarrow> world" where
  "new_server u =
     \<lparr>mqttURL = u, registrations = Map.empty, iteratorTimeout = Map.empty, live = {},
      next_iterator = 0, loops = [], timers = [], next_timer = 0, published = [],
      console = [], clock = 0\<rparr>"

definition find_registration :: "world \<Rightarrow> string \<Rightarrow> string \<Rightarrow> registration option" where
  "find_registration w clientId topic =
     (case registrations w clientId of
        None \<Rightarrow> None
      | Some regs \<Rightarrow> List.find (\<lambda>r. topicId r = topic) regs)"

subsection \<open>Invariants\<close>

text \<open>
  Identities are handed out in order: in a well-formed state every live stream, every
  stream of a timer or of a stored registration, and every timer is older than the next
  identity, and a loop only waits on a live stream. Every state the server reaches is
  well-formed.
\<close>

definition wellformed :: "world \<Rightarrow> bool" where
  "wellformed w \<longleftrightarrow>
     (\<forall>i \<in> live w. i < next_iterator w) \<and>
     (\<forall>l \<in> set (loops w). lp_asyncIterator l \<in> live w) \<and>
     (\<forall>t \<in> set (timers w). t_id t < next_timer w \<and> t_iterator t < next_iterator w) \<and>
     (\<forall>c t. iteratorTimeout w c = Some t \<longrightarrow> t < next_timer w) \<and>
     (\<forall>c regs. registrations w c = Some regs \<longrightarrow>
        (\<forall>r \<in> set regs. asyncIterator r < next_iterator w))"

text \<open>The topics that the successful registrations of a client received, in order.\<close>

fun registered :: "string \<Rightarrow> event list \<Rightarrow> string list" where
  "registered c [] = []"
| "registered c (Register doc vs ctx t Stream # evs) =
     (if jwt_sub ctx = c then t # registered c evs else registered c evs)"
| "registered c (_ # evs) = registered c evs"

text \<open>The time that passes in a run.\<close>

fun elapsed :: "event list \<Rightarrow> nat" where
  "elapsed [] = 0"
| "elapsed (Elapse ms # evs) = ms + elapsed evs"
| "elapsed (_ # evs) = elapsed evs"

text \<open>
  What a step may do to the streams (create new ones, cancel old ones) and what most
  steps leave alone (the timers and the clock).
\<close>

definition streams_frame :: "world \<Rightarrow> world \<Rightarrow> bool" where
  "streams_frame w w' \<longleftrightarrow>
     next_iterator w \<le> next_iterator w' \<and> (\<forall>i \<in> live w'. i \<in> live w \<or> next_iterator w \<le> i)"

definition timers_frame :: "world \<Rightarrow> world \<Rightarrow> bool" where
  "timers_frame w w' \<longleftrightarrow>
     timers w' = timers w \<and> next_timer w' = next_timer w \<and>
     iteratorTimeout w' = iteratorTimeout w \<and> clock w' = clock w"



section \<open>Properties of the event filter\<close>

lemma every_match_nullish:
  "nullish x \<Longrightarrow> every_match x (p # ps) = Inl TypeError"
  by (cases x; cases p) simp_all

lemma js_get_total:
  "\<not> nullish x \<Longrightarrow> \<exists>y. js_get x k = Inr y"
  by (cases x) simp_all

lemma every_match_all:
  "\<not> nullish x \<Longrightarrow>
   every_match x vs = Inr (\<forall>(k, v) \<in> set vs. \<exists>y. js_get x k = Inr y \<and> strict_eq y v)"
proof (induction vs)
  case Nil
  then show ?case by simp
next
  case (Cons p vs)
  obtain k v where p: "p = (k, v)" by (cases p)
  from Cons.prems obtain y where y: "js_get x k = Inr y"
    using js_get_total by blast
  show ?case using Cons p y by auto
qed

lemma null_payload_rejected:
  "payload_is_null e \<Longrightarrow> shouldPublishSubscription e v = Inr False"
  by (simp add: shouldPublishSubscription_def)

lemma consume_null:
  "payload_is_null e \<Longrightarrow> published (consume l e w) = published w"
  by (simp add: consume_def shouldPublishSubscription_def await_next_def consola_def Let_def)

lemma deliver_null:
  "payload_is_null e \<Longrightarrow> published (deliver it e w) = published w"
  by (simp add: deliver_def consume_null split: option.splits)

text \<open>
  With a payload body that is an object whose first field holds a value other than
  \<^verbatim>\<open>null\<close> and \<^verbatim>\<open>undefined\<close>, and with at least one bound variable, the filter
  answers, and its answer is whether every bound variable strictly equals what the first
  field holds under the variable's name. The later fields of the body play no part.
\<close>

lemma shouldPublish_first_field:
  "typeof_object e \<Longrightarrow> js_get e ''data'' = Inr (JObj r ((f, x) # rest)) \<Longrightarrow> \<not> nullish x \<Longrightarrow>
   object_entries vs = Inr (p # ps) \<Longrightarrow>
   shouldPublishSubscription e vs =
     Inr (\<forall>(k, v) \<in> set (p # ps). \<exists>y. js_get x k = Inr y \<and> strict_eq y v)"
  by (cases e)
     (simp_all add: shouldPublishSubscription_def payload_is_null_def first_entry_value_def
        every_match_all del: every_match.simps)

text \<open>
  C3. The filter looks at the first top-level field of the payload body only and
  compares what it holds with every bound variable. The claim promises \<^verbatim>\<open>false\<close>
  whenever a pair does not match, for every body that is a non-empty object. At the
  event \<^verbatim>\<open>{ data: { onCreate: null } }\<close> with the variables \<^verbatim>\<open>{ id: '1' }\<close>
  the first field holds \<^verbatim>\<open>null\<close>, no pair matches, and the filter raises a
  TypeError instead of answering \<^verbatim>\<open>false\<close>.
\<close>

theorem shouldPublish_null_field_raises:
  "shouldPublishSubscription
     (JObj 1 [(''data'', JObj 2 [(''onCreate'', JNull)])]) (JObj 3 [(''id'', JStr ''1'')]) =
   Inl TypeError"
  by (simp add: shouldPublishSubscription_def payload_is_null_def first_entry_value_def)

text \<open>
  C7. With no bound variable, the filter answers \<^verbatim>\<open>true\<close> for every event that
  carries a payload body, whatever the body holds.
\<close>

theorem shouldPublish_no_variables:
  "typeof_object e \<Longrightarrow> js_get e ''data'' = Inr d \<Longrightarrow> \<not> nullish d \<Longrightarrow>
   object_entries v = Inr [] \<Longrightarrow> shouldPublishSubscription e v = Inr True"
  by (cases e) (simp_all add: shouldPublishSubscription_def payload_is_null_def)

theorem shouldPublish_no_variables_witness:
  "shouldPublishSubscription
     (JObj 1 [(''data'', JObj 2 [(''onCreate'', JObj 3 [(''id'', JStr ''1'')])])]) (JObj 4 []) =
   Inr True"
  using shouldPublish_no_variables
    [of "JObj 1 [(''data'', JObj 2 [(''onCreate'', JObj 3 [(''id'', JStr ''1'')])])]"
        "JObj 2 [(''onCreate'', JObj 3 [(''id'', JStr ''1'')])]" "JObj 4 []"]
  by simp

text \<open>
  C10. The filter is not total on events with a payload body: with at least one bound
  variable it raises a TypeError when the body is an object without fields, and when
  the first field of the body holds \<^verbatim>\<open>null\<close> or \<^verbatim>\<open>undefined\<close>.
\<close>

theorem shouldPublish_raises:
  "object_entries v = Inr (p # ps) \<Longrightarrow> typeof_object e \<Longrightarrow>
   js_get e ''data'' = Inr (JObj r fs) \<Longrightarrow>
   fs = [] \<or> (\<exists>f x rest. fs = (f, x) # rest \<and> nullish x) \<Longrightarrow>
   shouldPublishSubscription e v = Inl TypeError"
  by (cases e)
     (auto simp: shouldPublishSubscription_def payload_is_null_def first_entry_value_def
        every_match_nullish)

theorem shouldPublish_raises_witness:
  "shouldPublishSubscription (JObj 1 [(''data'', JObj 2 [])]) (JObj 3 [(''id'', JStr ''1'')]) =
     Inl TypeError \<and>
   shouldPublishSubscription
     (JObj 1 [(''data'', JObj 2 [(''onCreate'', JUndefined), (''onUpdate'', JStr ''x'')])])
     (JObj 3 [(''id'', JStr ''1'')]) = Inl TypeError"
  using shouldPublish_raises
    [of "JObj 3 [(''id'', JStr ''1'')]" "(''id'', JStr ''1'')" "[]"
        "JObj 1 [(''data'', JObj 2 [])]" 2 "[]"]
    shouldPublish_raises
    [of "JObj 3 [(''id'', JStr ''1'')]" "(''id'', JStr ''1'')" "[]"
        "JObj 1 [(''data'', JObj 2 [(''onCreate'', JUndefined), (''onUpdate'', JStr ''x'')])]"
        2 "[(''onCreate'', JUndefined), (''onUpdate'', JStr ''x'')]"]
  by simp

section \<open>Properties of the server\<close>

subsection \<open>Well-formed states\<close>

lemma wellformed_new_server: "wellformed (new_server u)"
  by (simp add: wellformed_def new_server_def)

lemma wellformed_console: "wellformed (w\<lparr>console := c\<rparr>) = wellformed w"
  by (simp add: wellformed_def)

lemma wellformed_consola: "wellformed (consola lv m w) = wellformed w"
  by (simp add: consola_def wellformed_console)

lemma wellformed_published: "wellformed (w\<lparr>published := c\<rparr>) = wellformed w"
  by (simp add: wellformed_def)

lemma wellformed_clock: "wellformed (w\<lparr>clock := c\<rparr>) = wellformed w"
  by (simp add: wellformed_def)

lemma wellformed_subscribe:
  "wellformed w \<Longrightarrow> wellformed (snd (subscribeToGraphQL answer w))"
  by (cases answer) (auto simp: subscribeToGraphQL_def wellformed_def less_Suc_eq)

lemma wellformed_return: "wellformed w \<Longrightarrow> wellformed (iterator_return it w)"
  by (auto simp: iterator_return_def wellformed_def)

lemma wellformed_await: "wellformed w \<Longrightarrow> wellformed (await_next l w)"
  by (auto simp: await_next_def wellformed_def)

lemma wellformed_clear: "wellformed w \<Longrightarrow> wellformed (clearTimeout t w)"
  by (auto simp: clearTimeout_def wellformed_def)

lemma wellformed_fire: "wellformed w \<Longrightarrow> wellformed (fire t w)"
  by (simp add: fire_def wellformed_return wellformed_clear)

lemma wellformed_fold_fire: "wellformed w \<Longrightarrow> wellformed (fold fire ts w)"
  by (induction ts arbitrary: w) (simp_all add: wellformed_fire)

lemma wellformed_elapse: "wellformed w \<Longrightarrow> wellformed (elapse ms w)"
  by (simp add: elapse_def Let_def wellformed_fold_fire wellformed_clock)

lemma wellformed_remove_loop: "wellformed w \<Longrightarrow> wellformed (w\<lparr>loops := remove1 l (loops w)\<rparr>)"
  by (auto simp: wellformed_def dest: notin_set_remove1)

lemma wellformed_consume: "wellformed w \<Longrightarrow> wellformed (consume l p w)"
  by (simp add: consume_def Let_def publish_def wellformed_await wellformed_consola
      wellformed_console wellformed_published split: sum.splits bool.splits)

lemma wellformed_deliver: "wellformed w \<Longrightarrow> wellformed (deliver it p w)"
  by (simp add: deliver_def wellformed_consume wellformed_remove_loop split: option.splits)

lemma set_update_first: "set (update_first P f xs) \<subseteq> set xs \<union> f ` set xs"
  by (induction xs) auto

lemma wellformed_connect: "wellformed w \<Longrightarrow> wellformed (onClientConnect c w)"
  by (simp add: onClientConnect_def Let_def wellformed_consola wellformed_clear split: option.splits)

lemma wellformed_disconnect: "wellformed w \<Longrightarrow> wellformed (onClientDisconnect c w)"
  by (simp add: onClientDisconnect_def Let_def wellformed_consola split: option.splits)

lemma wellformed_registrations:
  "wellformed w \<Longrightarrow> \<forall>r \<in> set regs. asyncIterator r < next_iterator w \<Longrightarrow>
   wellformed (w\<lparr>registrations := (registrations w)(c \<mapsto> regs)\<rparr>)"
  by (auto simp: wellformed_def)

lemma wellformed_regs:
  "wellformed w \<Longrightarrow> registrations w c = Some regs \<Longrightarrow> r \<in> set regs \<Longrightarrow>
   asyncIterator r < next_iterator w"
  by (auto simp: wellformed_def)

lemma wellformed_unsubscribed: "wellformed w \<Longrightarrow> wellformed (onClientUnsubscribed t c w)"
proof -
  assume wf: "wellformed w"
  let ?w1 = "consola Info (''Client ('' @ c @ '') unsubscribed to : '' @ t) w"
  have wf1: "wellformed ?w1" using wf by (simp add: wellformed_consola)
  show ?thesis
  proof (cases "registrations ?w1 c")
    case None
    then show ?thesis using wf1
      by (simp add: onClientUnsubscribed_def Let_def wellformed_consola)
  next
    case (Some regs)
    show ?thesis
    proof (cases "List.find (\<lambda>r. topicId r = t) regs")
      case None
      then show ?thesis using wf1 Some
        by (simp add: onClientUnsubscribed_def Let_def wellformed_consola)
    next
      case (Some reg)
      let ?w2 = "iterator_return (asyncIterator reg) ?w1"
      let ?regs' = "update_first (\<lambda>r. topicId r = t) (\<lambda>r. r\<lparr>isRegistered := False\<rparr>) regs"
      have wf2: "wellformed ?w2" using wf1 by (rule wellformed_return)
      have n: "next_iterator ?w2 = next_iterator ?w1" "registrations ?w2 = registrations ?w1"
        by (simp_all add: iterator_return_def)
      have "\<forall>r \<in> set ?regs'. asyncIterator r < next_iterator ?w2"
      proof
        fix r assume "r \<in> set ?regs'"
        then have "r \<in> set regs \<or> r \<in> (\<lambda>r. r\<lparr>isRegistered := False\<rparr>) ` set regs"
          using set_update_first by fastforce
        then obtain r0 where "r0 \<in> set regs" "asyncIterator r = asyncIterator r0" by auto
        then show "asyncIterator r < next_iterator ?w2"
          using wellformed_regs[OF wf1 \<open>registrations ?w1 c = Some regs\<close>] n by simp
      qed
      then have "wellformed (?w2\<lparr>registrations := (registrations ?w2)(c \<mapsto> ?regs')\<rparr>)"
        using wf2 by (rule wellformed_registrations[rotated])
      then show ?thesis using Some \<open>registrations ?w1 c = Some regs\<close>
        by (simp add: onClientUnsubscribed_def Let_def)
    qed
  qed
qed

lemma wellformed_subscribed: "wellformed w \<Longrightarrow> wellformed (onClientSubscribed t c answer w)"
proof -
  assume wf: "wellformed w"
  let ?w1 = "consola Info (''client ('' @ c @ '') subscribed to : '' @ t) w"
  have wf1: "wellformed ?w1" using wf by (simp add: wellformed_consola)
  show ?thesis
  proof (cases "registrations ?w1 c")
    case None
    then show ?thesis using wf1
      by (simp add: onClientSubscribed_def Let_def wellformed_consola)
  next
    case (Some regs)
    note regs = this
    show ?thesis
    proof (cases "List.find (\<lambda>r. topicId r = t) regs")
      case None
      then show ?thesis using wf1 regs
        by (simp add: onClientSubscribed_def Let_def wellformed_consola)
    next
      case (Some reg)
      note reg = this
      show ?thesis
      proof (cases "isRegistered reg")
        case True
        then show ?thesis using wf1 regs reg
          by (simp add: onClientSubscribed_def Let_def start_loop_def wellformed_await)
      next
        case False
        note unreg = this
        show ?thesis
        proof (cases answer)
          case (Errors errs d)
          then show ?thesis using wf1 regs reg unreg
            by (simp add: onClientSubscribed_def Let_def subscribeToGraphQL_def wellformed_consola)
        next
          case Stream
          let ?it = "next_iterator ?w1"
          let ?w2 = "snd (subscribeToGraphQL Stream ?w1)"
          let ?regs' = "update_first (\<lambda>r. topicId r = t)
                          (\<lambda>r. r\<lparr>asyncIterator := ?it, isRegistered := True\<rparr>) regs"
          have wf2: "wellformed ?w2" using wf1 by (rule wellformed_subscribe)
          have n: "next_iterator ?w2 = Suc ?it" "registrations ?w2 = registrations ?w1"
            by (simp_all add: subscribeToGraphQL_def)
          have "\<forall>r \<in> set ?regs'. asyncIterator r < next_iterator ?w2"
          proof
            fix r assume "r \<in> set ?regs'"
            then have "r \<in> set regs \<or>
                r \<in> (\<lambda>r. r\<lparr>asyncIterator := ?it, isRegistered := True\<rparr>) ` set regs"
              using set_update_first by fastforce
            then have "r \<in> set regs \<or> asyncIterator r = ?it" by auto
            then show "asyncIterator r < next_iterator ?w2"
              using wellformed_regs[OF wf1 regs] n by (auto simp: less_Suc_eq)
          qed
          then have "wellformed (?w2\<lparr>registrations := (registrations ?w2)(c \<mapsto> ?regs')\<rparr>)"
            using wf2 by (rule wellformed_registrations[rotated])
          then show ?thesis using regs reg unreg Stream
            by (simp add: onClientSubscribed_def Let_def start_loop_def wellformed_await
                subscribeToGraphQL_def)
        qed
      qed
    qed
  qed
qed

lemma register_world:
  "snd (register doc vs ctx t Stream w) =
      w\<lparr>console := console w @ [(Info, ''Register''), (Info, ''subscription handshake sent'')],
        live := insert (next_iterator w) (live w),
        next_iterator := Suc (next_iterator w),
        registrations := (registrations w)(jwt_sub ctx \<mapsto>
          client_registrations w (jwt_sub ctx) @
          [\<lparr>r_context = ctx, documentAST = doc, variables = vs, topicId = t,
            asyncIterator = next_iterator w, isRegistered = True\<rparr>]),
        timers := timers w @
          [\<lparr>t_id = next_timer w, t_due = clock w + ConnectTimeout, t_iterator = next_iterator w\<rparr>],
        next_timer := Suc (next_timer w),
        iteratorTimeout := (iteratorTimeout w)(jwt_sub ctx \<mapsto> next_timer w)\<rparr>"
  by (simp add: register_def subscribeToGraphQL_def consola_def setTimeout_def Let_def
      client_registrations_def)

lemma register_errors_world:
  "snd (register doc vs ctx t (Errors errs d) w) = w\<lparr>console := console w @ [(Info, ''Register'')]\<rparr>"
  by (simp add: register_def subscribeToGraphQL_def consola_def)

lemma wellformed_register: "wellformed w \<Longrightarrow> wellformed (snd (register doc vs ctx t answer w))"
proof (cases answer)
  case (Errors errs d)
  assume "wellformed w"
  then show ?thesis using Errors
    by (simp add: register_errors_world wellformed_console)
next
  case Stream
  assume wf: "wellformed w"
  define old where "old = client_registrations w (jwt_sub ctx)"
  have old: "\<forall>r \<in> set old. asyncIterator r < next_iterator w"
    using wf
    by (cases "registrations w (jwt_sub ctx)")
       (auto simp: old_def client_registrations_def wellformed_def)
  show ?thesis
    unfolding Stream register_world old_def[symmetric]
    using wf old by (auto simp: wellformed_def less_Suc_eq)
qed

lemma wellformed_step: "wellformed w \<Longrightarrow> wellformed (step e w)"
  by (cases e)
     (simp_all add: wellformed_register wellformed_connect wellformed_disconnect
        wellformed_subscribed wellformed_unsubscribed wellformed_elapse wellformed_deliver
        wellformed_return)

lemma wellformed_run: "wellformed w \<Longrightarrow> wellformed (run evs w)"
  unfolding run_def by (induction evs arbitrary: w) (simp_all add: wellformed_step)

lemma wellformed_reachable: "wellformed (run evs (new_server u))"
  by (simp add: wellformed_run wellformed_new_server)

subsection \<open>What the handlers change\<close>

lemma find_topic: "List.find (\<lambda>r. topicId r = topic) regs = Some reg \<Longrightarrow> topicId reg = topic"
  by (induction regs) (auto split: if_splits)

lemma find_update_first:
  "(\<And>x. P x \<Longrightarrow> P (f x)) \<Longrightarrow> List.find P (update_first P f xs) = map_option f (List.find P xs)"
  by (induction xs) auto

lemma find_append_last:
  "\<forall>x \<in> set xs. \<not> P x \<Longrightarrow> P y \<Longrightarrow> List.find P (xs @ [y]) = Some y"
  by (induction xs) auto

lemma find_registrationD:
  "find_registration w c t = Some reg \<Longrightarrow>
   \<exists>regs. registrations w c = Some regs \<and> List.find (\<lambda>r. topicId r = t) regs = Some reg"
  by (auto simp: find_registration_def split: option.splits)

lemma unsubscribed_found:
  "registrations w c = Some regs \<Longrightarrow> List.find (\<lambda>r. topicId r = t) regs = Some reg \<Longrightarrow>
   onClientUnsubscribed t c w =
     w\<lparr>console := console w @ [(Info, ''Client ('' @ c @ '') unsubscribed to : '' @ t)],
       live := live w - {asyncIterator reg},
       loops := filter (\<lambda>l. lp_asyncIterator l \<noteq> asyncIterator reg) (loops w),
       registrations := (registrations w)(c \<mapsto>
         update_first (\<lambda>r. topicId r = t) (\<lambda>r. r\<lparr>isRegistered := False\<rparr>) regs)\<rparr>"
  by (simp add: onClientUnsubscribed_def consola_def Let_def iterator_return_def)

lemma resubscribed_found:
  "registrations w c = Some regs \<Longrightarrow> List.find (\<lambda>r. topicId r = t) regs = Some reg \<Longrightarrow>
   \<not> isRegistered reg \<Longrightarrow>
   onClientSubscribed t c Stream w =
     w\<lparr>console := console w @ [(Info, ''client ('' @ c @ '') subscribed to : '' @ t)],
       live := insert (next_iterator w) (live w),
       next_iterator := Suc (next_iterator w),
       registrations := (registrations w)(c \<mapsto>
         update_first (\<lambda>r. topicId r = t)
           (\<lambda>r. r\<lparr>asyncIterator := next_iterator w, isRegistered := True\<rparr>) regs),
       loops := loops w @
         [\<lparr>lp_clientId = c, lp_topicId = t, lp_variables = variables reg,
           lp_asyncIterator = next_iterator w\<rparr>]\<rparr>"
  using find_topic[of t regs reg]
  by (simp add: onClientSubscribed_def consola_def Let_def subscribeToGraphQL_def start_loop_def
      await_next_def)

lemma deliver_publishes:
  "it \<in> live w \<Longrightarrow> List.find (\<lambda>l. lp_asyncIterator l = it) (loops w) = Some l \<Longrightarrow>
   shouldPublishSubscription payload (lp_variables l) = Inr True \<Longrightarrow>
   published (deliver it payload w) =
     published w @ [\<lparr>m_topic = lp_topicId l, m_payload = payload, m_qos = 0, m_retain = False\<rparr>]"
  by (simp add: deliver_def consume_def Let_def await_next_def publish_def consola_def)



lemma rest_fold_fire:
  "next_iterator (fold fire ts w) = next_iterator w \<and> next_timer (fold fire ts w) = next_timer w \<and>
   iteratorTimeout (fold fire ts w) = iteratorTimeout w \<and> clock (fold fire ts w) = clock w"
  by (induction ts arbitrary: w) (auto simp: fire_def iterator_return_def clearTimeout_def)

lemma subscribed_frames:
  "streams_frame w (onClientSubscribed t c a w) \<and> timers_frame w (onClientSubscribed t c a w)"
  by (cases a)
     (auto simp: streams_frame_def timers_frame_def onClientSubscribed_def consola_def Let_def
        subscribeToGraphQL_def start_loop_def await_next_def split: option.splits)

lemma unsubscribed_frames:
  "streams_frame w (onClientUnsubscribed t c w) \<and> timers_frame w (onClientUnsubscribed t c w)"
  by (auto simp: streams_frame_def timers_frame_def onClientUnsubscribed_def consola_def Let_def
        iterator_return_def split: option.splits)

lemma disconnect_frames:
  "streams_frame w (onClientDisconnect c w) \<and> timers_frame w (onClientDisconnect c w)"
  by (auto simp: streams_frame_def timers_frame_def onClientDisconnect_def consola_def Let_def
        split: option.splits)

lemma consume_frames:
  "streams_frame w (consume l p w) \<and> timers_frame w (consume l p w)"
  by (auto simp: streams_frame_def timers_frame_def consume_def consola_def Let_def publish_def
        await_next_def split: sum.splits bool.splits)

lemma deliver_frames:
  "streams_frame w (deliver it p w) \<and> timers_frame w (deliver it p w)"
proof (cases "it \<in> live w")
  case False
  then show ?thesis by (simp add: deliver_def streams_frame_def timers_frame_def)
next
  case True
  show ?thesis
  proof (cases "List.find (\<lambda>l. lp_asyncIterator l = it) (loops w)")
    case None
    then show ?thesis using True by (simp add: deliver_def streams_frame_def timers_frame_def)
  next
    case (Some l)
    have "streams_frame (w\<lparr>loops := remove1 l (loops w)\<rparr>) (consume l p (w\<lparr>loops := remove1 l (loops w)\<rparr>))
      \<and> timers_frame (w\<lparr>loops := remove1 l (loops w)\<rparr>) (consume l p (w\<lparr>loops := remove1 l (loops w)\<rparr>))"
      by (rule consume_frames)
    then show ?thesis using True Some
      by (simp add: deliver_def streams_frame_def timers_frame_def)
  qed
qed

lemma return_frames:
  "streams_frame w (iterator_return it w) \<and> timers_frame w (iterator_return it w)"
  by (auto simp: streams_frame_def timers_frame_def iterator_return_def)












lemma clock_step: "clock (step e w) = clock w + elapsed [e]"
proof (cases e)
  case (Register doc vs ctx t a)
  then show ?thesis by (cases a) (simp_all add: register_world register_errors_world)
next
  case (ClientConnected c)
  then show ?thesis
    by (simp add: onClientConnect_def consola_def Let_def clearTimeout_def split: option.splits)
next
  case (Elapse ms)
  then show ?thesis by (simp add: elapse_def Let_def rest_fold_fire)
qed (use disconnect_frames subscribed_frames unsubscribed_frames deliver_frames return_frames
      in \<open>simp_all add: timers_frame_def\<close>)

lemma elapsed_Cons: "elapsed (e # evs) = elapsed [e] + elapsed evs"
  by (cases e) simp_all





subsection \<open>The topics of a client and the messages of a run\<close>

lemma map_update_first: "(\<And>x. g (f x) = g x) \<Longrightarrow> map g (update_first P f xs) = map g xs"
  by (induction xs) auto

lemma fold_fire_store:
  "registrations (fold fire ts w) = registrations w \<and> mqttURL (fold fire ts w) = mqttURL w"
  by (induction ts arbitrary: w) (auto simp: fire_def iterator_return_def clearTimeout_def)

lemma consume_store:
  "registrations (consume l p w) = registrations w \<and> mqttURL (consume l p w) = mqttURL w"
  by (auto simp: consume_def consola_def Let_def publish_def await_next_def
      split: sum.splits bool.splits)

lemma deliver_store:
  "registrations (deliver it p w) = registrations w \<and> mqttURL (deliver it p w) = mqttURL w"
  by (simp add: deliver_def consume_store split: option.splits)

lemma subscribed_topics:
  "map topicId (client_registrations (onClientSubscribed t c a w) c') =
     map topicId (client_registrations w c') \<and>
   mqttURL (onClientSubscribed t c a w) = mqttURL w"
  by (cases a)
     (auto simp: client_registrations_def onClientSubscribed_def consola_def Let_def
        subscribeToGraphQL_def start_loop_def await_next_def map_update_first
        split: option.splits)

lemma unsubscribed_topics:
  "map topicId (client_registrations (onClientUnsubscribed t c w) c') =
     map topicId (client_registrations w c') \<and>
   mqttURL (onClientUnsubscribed t c w) = mqttURL w"
  by (auto simp: client_registrations_def onClientUnsubscribed_def consola_def Let_def
        iterator_return_def map_update_first split: option.splits)

lemma step_topics:
  "map topicId (client_registrations (step e w) c) =
     map topicId (client_registrations w c) @ registered c [e] \<and>
   mqttURL (step e w) = mqttURL w"
proof (cases e)
  case (Register doc vs ctx t a)
  then show ?thesis
    by (cases a)
       (simp_all add: register_world register_errors_world client_registrations_def)
next
  case (ClientConnected c')
  then show ?thesis
    by (simp add: client_registrations_def onClientConnect_def consola_def Let_def
        clearTimeout_def split: option.splits)
next
  case (ClientDisconnected c')
  then show ?thesis
    by (simp add: client_registrations_def onClientDisconnect_def consola_def Let_def
        split: option.splits)
next
  case (Subscribed t c' a)
  then show ?thesis by (simp add: subscribed_topics)
next
  case (Unsubscribed t c')
  then show ?thesis by (simp add: unsubscribed_topics)
next
  case (Elapse ms)
  then show ?thesis by (simp add: client_registrations_def elapse_def Let_def fold_fire_store)
next
  case (Yield it p)
  then show ?thesis by (simp add: client_registrations_def deliver_store)
next
  case (Exhaust it)
  then show ?thesis by (simp add: client_registrations_def iterator_return_def)
qed

lemma registered_Cons: "registered c (e # evs) = registered c [e] @ registered c evs"
proof (cases e)
  case (Register doc vs ctx t a)
  then show ?thesis by (cases a) simp_all
qed simp_all

lemma run_topics:
  "map topicId (client_registrations (run evs w) c) =
     map topicId (client_registrations w c) @ registered c evs \<and>
   mqttURL (run evs w) = mqttURL w"
  unfolding run_def
proof (induction evs arbitrary: w)
  case Nil
  then show ?case by simp
next
  case (Cons e evs)
  show ?case
    using Cons.IH[of "step e w"] step_topics[of e w c] registered_Cons[of c e evs] by simp
qed

lemma clock_run: "clock (run evs w) = clock w + elapsed evs"
  unfolding run_def
proof (induction evs arbitrary: w)
  case Nil
  then show ?case by simp
next
  case (Cons e evs)
  show ?case using Cons.IH[of "step e w"] clock_step[of e w] elapsed_Cons[of e evs] by simp
qed

lemma fold_fire_published: "published (fold fire ts w) = published w"
  by (induction ts arbitrary: w) (auto simp: fire_def iterator_return_def clearTimeout_def)

lemma consume_published:
  "published (consume l p w) = published w \<or>
   (\<not> payload_is_null p \<and>
    published (consume l p w) =
      published w @ [\<lparr>m_topic = lp_topicId l, m_payload = p, m_qos = 0, m_retain = False\<rparr>])"
  by (cases "payload_is_null p")
     (auto simp: consume_def consola_def Let_def publish_def await_next_def
        shouldPublishSubscription_def split: sum.splits bool.splits)

lemma deliver_published:
  "published (deliver it p w) = published w \<or>
   (\<not> payload_is_null p \<and> (\<exists>m. m_payload m = p \<and> published (deliver it p w) = published w @ [m]))"
proof (cases "it \<in> live w")
  case False
  then show ?thesis by (simp add: deliver_def)
next
  case True
  show ?thesis
  proof (cases "List.find (\<lambda>l. lp_asyncIterator l = it) (loops w)")
    case None
    then show ?thesis using True by (simp add: deliver_def)
  next
    case (Some l)
    then have "deliver it p w = consume l p (w\<lparr>loops := remove1 l (loops w)\<rparr>)"
      using True by (simp add: deliver_def)
    then show ?thesis
      using consume_published[of l p "w\<lparr>loops := remove1 l (loops w)\<rparr>"] by auto
  qed
qed

lemma step_published:
  "\<forall>m \<in> set (published w). \<not> payload_is_null (m_payload m) \<Longrightarrow>
   \<forall>m \<in> set (published (step e w)). \<not> payload_is_null (m_payload m)"
proof (cases e)
  case (Register doc vs ctx t a)
  assume "\<forall>m \<in> set (published w). \<not> payload_is_null (m_payload m)"
  then show ?thesis using Register
    by (cases a) (simp_all add: register_world register_errors_world)
next
  case (ClientConnected c)
  assume "\<forall>m \<in> set (published w). \<not> payload_is_null (m_payload m)"
  then show ?thesis using ClientConnected
    by (simp add: onClientConnect_def consola_def Let_def clearTimeout_def split: option.splits)
next
  case (ClientDisconnected c)
  assume "\<forall>m \<in> set (published w). \<not> payload_is_null (m_payload m)"
  then show ?thesis using ClientDisconnected
    by (simp add: onClientDisconnect_def consola_def Let_def split: option.splits)
next
  case (Subscribed t c a)
  assume "\<forall>m \<in> set (published w). \<not> payload_is_null (m_payload m)"
  moreover have "published (onClientSubscribed t c a w) = published w"
    by (cases a)
       (auto simp: onClientSubscribed_def consola_def Let_def subscribeToGraphQL_def
          start_loop_def await_next_def split: option.splits)
  ultimately show ?thesis using Subscribed by simp
next
  case (Unsubscribed t c)
  assume "\<forall>m \<in> set (published w). \<not> payload_is_null (m_payload m)"
  moreover have "published (onClientUnsubscribed t c w) = published w"
    by (auto simp: onClientUnsubscribed_def consola_def Let_def iterator_return_def
        split: option.splits)
  ultimately show ?thesis using Unsubscribed by simp
next
  case (Elapse ms)
  assume "\<forall>m \<in> set (published w). \<not> payload_is_null (m_payload m)"
  then show ?thesis using Elapse by (simp add: elapse_def Let_def fold_fire_published)
next
  case (Yield it p)
  assume "\<forall>m \<in> set (published w). \<not> payload_is_null (m_payload m)"
  then show ?thesis using Yield deliver_published[of it p w] by auto
next
  case (Exhaust it)
  assume "\<forall>m \<in> set (published w). \<not> payload_is_null (m_payload m)"
  then show ?thesis using Exhaust by (simp add: iterator_return_def)
qed

lemma run_published:
  "\<forall>m \<in> set (published w). \<not> payload_is_null (m_payload m) \<Longrightarrow>
   \<forall>m \<in> set (published (run evs w)). \<not> payload_is_null (m_payload m)"
  unfolding run_def
proof (induction evs arbitrary: w)
  case Nil
  then show ?case by simp
next
  case (Cons e evs)
  from Cons.prems have "\<forall>m \<in> set (published (step e w)). \<not> payload_is_null (m_payload m)"
    by (rule step_published)
  then show ?case using Cons.IH[of "step e w"] by simp
qed

lemma never_published:
  "payload_is_null p \<Longrightarrow> m \<in> set (published (run evs (new_server u))) \<Longrightarrow> m_payload m \<noteq> p"
  using run_published[of "new_server u" evs] by (auto simp: new_server_def)

subsection \<open>Evaluating runs\<close>

lemmas server_defs = run_def register_def client_registrations_def subscribeToGraphQL_def consola_def setTimeout_def
  Let_def new_server_def onClientSubscribed_def onClientUnsubscribed_def onClientConnect_def
  onClientDisconnect_def start_loop_def await_next_def find_registration_def ConnectTimeout_def
  TopicExpires_def clearTimeout_def elapse_def fire_def iterator_return_def deliver_def
  consume_def publish_def shouldPublishSubscription_def payload_is_null_def
  shouldPublish_log_def first_entry_value_def

text \<open>
  C6. The filter answers \<^verbatim>\<open>false\<close> for an event that is \<^verbatim>\<open>null\<close> (or
  \<^verbatim>\<open>undefined\<close>) and for an event whose \<^verbatim>\<open>data\<close> is \<^verbatim>\<open>null\<close> (or absent),
  whatever the bound variables are. Delivering such an event to a consumption loop
  publishes nothing, and no message of any run of the server carries such an event.
\<close>

theorem shouldPublish_null_payload:
  "payload = JNull \<or> payload = JUndefined \<or>
     (typeof_object payload \<and> js_get payload ''data'' = Inr d \<and> nullish d) \<Longrightarrow>
   shouldPublishSubscription payload v = Inr False \<and>
   published (deliver it payload w) = published w \<and>
   (\<forall>m \<in> set (published (run evs (new_server u))). m_payload m \<noteq> payload)"
proof -
  assume "payload = JNull \<or> payload = JUndefined \<or>
     (typeof_object payload \<and> js_get payload ''data'' = Inr d \<and> nullish d)"
  then have "payload_is_null payload"
    by (auto simp: payload_is_null_def)
  then show ?thesis
    using never_published[of payload _ evs u]
    by (simp add: null_payload_rejected deliver_null)
qed

theorem shouldPublish_null_payload_witness:
  "shouldPublishSubscription (JObj 1 [(''data'', JNull)]) (JObj 2 [(''id'', JStr ''1'')]) =
     Inr False \<and>
   published
     (deliver 0 (JObj 1 [(''data'', JNull)])
       (run [Register ''doc'' (JObj 2 [(''id'', JStr ''1'')])
               \<lparr>jwt_sub = ''c1'', appsyncErrors = JUndefined\<rparr> ''t1'' Stream,
             Subscribed ''t1'' ''c1'' Stream] (new_server ''ws://localhost:1/''))) = []"
  using shouldPublish_null_payload
    [of "JObj 1 [(''data'', JNull)]" JNull "JObj 2 [(''id'', JStr ''1'')]" 0
        "run [Register ''doc'' (JObj 2 [(''id'', JStr ''1'')])
               \<lparr>jwt_sub = ''c1'', appsyncErrors = JUndefined\<rparr> ''t1'' Stream,
             Subscribed ''t1'' ''c1'' Stream] (new_server ''ws://localhost:1/'')"]
  by (simp add: server_defs)

section \<open>The claims about the server\<close>

text \<open>
  C2. The claim: when the engine answers the eager subscription of \<^verbatim>\<open>register\<close>
  with errors, \<^verbatim>\<open>register\<close> returns those errors and no handshake, and leaves the
  store and the timers as they were. The code returns
  \<^verbatim>\<open>context.appsyncErrors || asyncIterator.errors\<close>: the errors of the execution
  context when it carries any, and the engine's errors only otherwise. As amended:
  \<^verbatim>\<open>register\<close> returns the errors of the execution context if it carries any and
  the engine's errors otherwise, with the engine's \<^verbatim>\<open>data\<close> or \<^verbatim>\<open>null\<close> and no
  handshake; nothing but the log changes: no registration is inserted, no timer is
  armed, no stream is created.
\<close>

theorem register_engine_errors:
  "register doc vs ctx topic (Errors errs d) w =
     (ErrorResponse (if truthy (appsyncErrors ctx) then appsyncErrors ctx else errs)
        (if truthy d then d else JNull),
      w\<lparr>console := console w @ [(Info, ''Register'')]\<rparr>)"
  by (simp add: register_def subscribeToGraphQL_def consola_def)

theorem register_errors_of_context:
  "register ''doc'' (JObj 0 [])
     \<lparr>jwt_sub = ''c1'', appsyncErrors = JArr 7 [JStr ''Unauthorized'']\<rparr> ''t1''
     (Errors (JArr 8 [JStr ''Cannot query field'']) JUndefined) (new_server ''ws://localhost:1/'') =
   (ErrorResponse (JArr 7 [JStr ''Unauthorized'']) JNull,
    (new_server ''ws://localhost:1/'')\<lparr>console := [(Info, ''Register'')]\<rparr>) \<and>
   JArr 7 [JStr ''Unauthorized''] \<noteq> JArr 8 [JStr ''Cannot query field'']"
  by (simp add: register_def subscribeToGraphQL_def consola_def new_server_def)

text \<open>
  C8. A successful \<^verbatim>\<open>register\<close> returns a handshake that carries the broker's
  address, the topic identities of all the client's registrations in the order of the
  store with the new one last, and the new topic with the expiry time
  \<^verbatim>\<open>Date.now()\<close> plus 100 minutes. In a state that the server has reached by a
  run, the topics are those of the client's successful registrations of the run, in
  their order, then the new one. The registration is appended to the client's list,
  and the timer it arms is due 2 minutes later.
\<close>

theorem register_handshake:
  "fst (register doc vs ctx topic Stream w) =
     Handshake
       [\<lparr>c_url = mqttURL w,
         c_topics = map topicId (client_registrations w (jwt_sub ctx)) @ [topic],
         c_client = jwt_sub ctx\<rparr>]
       [(topic, \<lparr>s_topic = topic, s_expireTime = clock w + 100 * (60 * 1000)\<rparr>)] \<and>
   fst (register doc vs ctx topic Stream (run evs (new_server u))) =
     Handshake
       [\<lparr>c_url = u, c_topics = registered (jwt_sub ctx) evs @ [topic], c_client = jwt_sub ctx\<rparr>]
       [(topic, \<lparr>s_topic = topic, s_expireTime = elapsed evs + 100 * (60 * 1000)\<rparr>)] \<and>
   client_registrations (snd (register doc vs ctx topic Stream w)) (jwt_sub ctx) =
     client_registrations w (jwt_sub ctx) @
       [\<lparr>r_context = ctx, documentAST = doc, variables = vs, topicId = topic,
         asyncIterator = next_iterator w, isRegistered = True\<rparr>] \<and>
   timers (snd (register doc vs ctx topic Stream w)) =
     timers w @
       [\<lparr>t_id = next_timer w, t_due = clock w + 2 * (60 * 1000), t_iterator = next_iterator w\<rparr>] \<and>
   ConnectTimeout = 2 * (60 * 1000) \<and> TopicExpires = 100 * (60 * 1000)"
proof -
  have h: "fst (register doc vs ctx topic Stream w) =
     Handshake
       [\<lparr>c_url = mqttURL w,
         c_topics = map topicId (client_registrations w (jwt_sub ctx)) @ [topic],
         c_client = jwt_sub ctx\<rparr>]
       [(topic, \<lparr>s_topic = topic, s_expireTime = clock w + 100 * (60 * 1000)\<rparr>)]" for w
    by (simp add: register_def subscribeToGraphQL_def consola_def setTimeout_def Let_def
        TopicExpires_def client_registrations_def)
  have r: "map topicId (client_registrations (run evs (new_server u)) (jwt_sub ctx)) =
      registered (jwt_sub ctx) evs" "mqttURL (run evs (new_server u)) = u"
    "clock (run evs (new_server u)) = elapsed evs"
    by (simp_all add: run_topics clock_run) (simp_all add: new_server_def client_registrations_def)
  show ?thesis
    by (simp add: h r) (simp add: register_world client_registrations_def ConnectTimeout_def
        TopicExpires_def)
qed

text \<open>
  C9. A \<^verbatim>\<open>subscribed\<close> or \<^verbatim>\<open>unsubscribed\<close> event for a client and topic
  without a registration in the store writes two lines to the log and changes nothing
  else: not the store, not the timers, not a stream, a loop or a message. The handlers
  have no failing branch.
\<close>

theorem unknown_registration_ignored:
  "find_registration w clientId topic = None \<Longrightarrow>
   onClientSubscribed topic clientId answer w =
     w\<lparr>console := console w @
       [(Info, ''client ('' @ clientId @ '') subscribed to : '' @ topic),
        (Err, case registrations w clientId of
                None \<Rightarrow> ''No registration for clientId''
              | Some _ \<Rightarrow> ''Not subscribed to topicId: '' @ topic @ '' for clientId'')]\<rparr> \<and>
   onClientUnsubscribed topic clientId w =
     w\<lparr>console := console w @
       [(Info, ''Client ('' @ clientId @ '') unsubscribed to : '' @ topic),
        (Warn, case registrations w clientId of
                None \<Rightarrow> ''Unsubscribe topic: '' @ topic @ '' from client with unknown id''
              | Some _ \<Rightarrow> ''Unsubscribe unregistered topic '' @ topic @ '' from client'')]\<rparr>"
  by (cases "registrations w clientId")
     (simp_all add: find_registration_def onClientSubscribed_def onClientUnsubscribed_def
        consola_def Let_def)

theorem unknown_registration_ignored_witness:
  "onClientSubscribed ''t2'' ''c1'' Stream
     (run [Register ''doc'' (JObj 0 []) \<lparr>jwt_sub = ''c1'', appsyncErrors = JUndefined\<rparr> ''t1'' Stream]
        (new_server ''ws://localhost:1/'')) =
     (run [Register ''doc'' (JObj 0 []) \<lparr>jwt_sub = ''c1'', appsyncErrors = JUndefined\<rparr> ''t1'' Stream]
        (new_server ''ws://localhost:1/''))
     \<lparr>console :=
        [(Info, ''Register''), (Info, ''subscription handshake sent''),
         (Info, ''client (c1) subscribed to : t2''),
         (Err, ''Not subscribed to topicId: t2 for clientId'')]\<rparr> \<and>
   onClientUnsubscribed ''t1'' ''c2'' (new_server ''ws://localhost:1/'') =
     (new_server ''ws://localhost:1/'')
     \<lparr>console :=
        [(Info, ''Client (c2) unsubscribed to : t1''),
         (Warn, ''Unsubscribe topic: t1 from client with unknown id'')]\<rparr>"
  using unknown_registration_ignored
    [of "run [Register ''doc'' (JObj 0 []) \<lparr>jwt_sub = ''c1'', appsyncErrors = JUndefined\<rparr> ''t1'' Stream]
        (new_server ''ws://localhost:1/'')" "''c1''" "''t2''" Stream]
    unknown_registration_ignored [of "new_server ''ws://localhost:1/''" "''c2''" "''t1''" Stream]
  by (simp add: server_defs)

text \<open>
  C1. The claim: once a registration has been claimed by a \<^verbatim>\<open>subscribed\<close> event, a
  second \<^verbatim>\<open>subscribed\<close> event for the same client and topic is a no-op and starts
  no second consumption loop on the registration's stream. The code guards the request
  of a new stream by \<^verbatim>\<open>isRegistered\<close> and then enters the loop in every case; it
  keeps no record of the loops that run. As amended: a \<^verbatim>\<open>subscribed\<close> event for a
  registration that is registered with a live stream requests no new stream and leaves
  the store, the timers and the streams as they are, and it starts one more
  consumption loop on the registration's stream.
\<close>

theorem subscribed_again_starts_loop:
  "find_registration w clientId topic = Some reg \<Longrightarrow> isRegistered reg \<Longrightarrow>
   asyncIterator reg \<in> live w \<Longrightarrow>
   onClientSubscribed topic clientId answer w =
     w\<lparr>console := console w @ [(Info, ''client ('' @ clientId @ '') subscribed to : '' @ topic)],
       loops := loops w @
         [\<lparr>lp_clientId = clientId, lp_topicId = topic, lp_variables = variables reg,
           lp_asyncIterator = asyncIterator reg\<rparr>]\<rparr>"
proof -
  assume found: "find_registration w clientId topic = Some reg"
    and active: "isRegistered reg" "asyncIterator reg \<in> live w"
  from found obtain regs where regs: "registrations w clientId = Some regs"
    and reg: "List.find (\<lambda>r. topicId r = topic) regs = Some reg"
    using find_registrationD by blast
  have "topicId reg = topic" using reg by (rule find_topic)
  then show ?thesis using active regs reg
    by (simp add: onClientSubscribed_def consola_def Let_def start_loop_def await_next_def)
qed

theorem subscribed_again_starts_loop_witness:
  "onClientSubscribed ''t1'' ''c1'' Stream
     (run [Register ''doc'' (JObj 0 []) \<lparr>jwt_sub = ''c1'', appsyncErrors = JUndefined\<rparr> ''t1'' Stream,
           Subscribed ''t1'' ''c1'' Stream] (new_server ''ws://localhost:1/'')) =
     (run [Register ''doc'' (JObj 0 []) \<lparr>jwt_sub = ''c1'', appsyncErrors = JUndefined\<rparr> ''t1'' Stream,
           Subscribed ''t1'' ''c1'' Stream] (new_server ''ws://localhost:1/''))
     \<lparr>console :=
        [(Info, ''Register''), (Info, ''subscription handshake sent''),
         (Info, ''client (c1) subscribed to : t1''), (Info, ''client (c1) subscribed to : t1'')],
      loops :=
        [\<lparr>lp_clientId = ''c1'', lp_topicId = ''t1'', lp_variables = JObj 0 [], lp_asyncIterator = 0\<rparr>,
         \<lparr>lp_clientId = ''c1'', lp_topicId = ''t1'', lp_variables = JObj 0 [], lp_asyncIterator = 0\<rparr>]\<rparr>"
  using subscribed_again_starts_loop
    [of "run [Register ''doc'' (JObj 0 []) \<lparr>jwt_sub = ''c1'', appsyncErrors = JUndefined\<rparr> ''t1'' Stream,
           Subscribed ''t1'' ''c1'' Stream] (new_server ''ws://localhost:1/'')" "''c1''" "''t1''"
        "\<lparr>r_context = \<lparr>jwt_sub = ''c1'', appsyncErrors = JUndefined\<rparr>, documentAST = ''doc'',
          variables = JObj 0 [], topicId = ''t1'', asyncIterator = 0, isRegistered = True\<rparr>" Stream]
  by (simp add: server_defs)

theorem subscribed_again_second_loop:
  "loops
     (run [Register ''doc'' (JObj 0 []) \<lparr>jwt_sub = ''c1'', appsyncErrors = JUndefined\<rparr> ''t1'' Stream,
           Subscribed ''t1'' ''c1'' Stream] (new_server ''ws://localhost:1/'')) =
     [\<lparr>lp_clientId = ''c1'', lp_topicId = ''t1'', lp_variables = JObj 0 [], lp_asyncIterator = 0\<rparr>] \<and>
   loops
     (run [Register ''doc'' (JObj 0 []) \<lparr>jwt_sub = ''c1'', appsyncErrors = JUndefined\<rparr> ''t1'' Stream,
           Subscribed ''t1'' ''c1'' Stream, Subscribed ''t1'' ''c1'' Stream]
        (new_server ''ws://localhost:1/'')) =
     [\<lparr>lp_clientId = ''c1'', lp_topicId = ''t1'', lp_variables = JObj 0 [], lp_asyncIterator = 0\<rparr>,
      \<lparr>lp_clientId = ''c1'', lp_topicId = ''t1'', lp_variables = JObj 0 [], lp_asyncIterator = 0\<rparr>]"
  by (simp add: server_defs)

text \<open>
  C5. In a well-formed state (every state the server reaches is one, by
  \<open>wellformed_reachable\<close>), an \<^verbatim>\<open>unsubscribed\<close> event for a registration cancels
  its event stream, which ends the loops that drain it, and keeps the registration in
  the store with \<^verbatim>\<open>isRegistered\<close> false. A later \<^verbatim>\<open>subscribed\<close> event for the
  same client and topic, when the engine grants a stream, stores a fresh live stream in
  the same registration, and an event of that stream that passes the filter is
  published to the registration's topic: no \<^verbatim>\<open>register\<close> call is needed.
\<close>

theorem unsubscribe_then_resubscribe:
  "wellformed w \<Longrightarrow> find_registration w c t = Some reg \<Longrightarrow>
   asyncIterator reg \<notin> live (onClientUnsubscribed t c w) \<and>
   loops (onClientUnsubscribed t c w) =
     filter (\<lambda>l. lp_asyncIterator l \<noteq> asyncIterator reg) (loops w) \<and>
   find_registration (onClientUnsubscribed t c w) c t = Some (reg\<lparr>isRegistered := False\<rparr>) \<and>
   find_registration (onClientSubscribed t c Stream (onClientUnsubscribed t c w)) c t =
     Some (reg\<lparr>asyncIterator := next_iterator w, isRegistered := True\<rparr>) \<and>
   next_iterator w \<noteq> asyncIterator reg \<and>
   next_iterator w \<in> live (onClientSubscribed t c Stream (onClientUnsubscribed t c w)) \<and>
   (shouldPublishSubscription payload (variables reg) = Inr True \<longrightarrow>
    published (deliver (next_iterator w) payload
        (onClientSubscribed t c Stream (onClientUnsubscribed t c w))) =
      published w @ [\<lparr>m_topic = t, m_payload = payload, m_qos = 0, m_retain = False\<rparr>])"
proof -
  assume wf: "wellformed w" and found: "find_registration w c t = Some reg"
  from found obtain regs where regs: "registrations w c = Some regs"
    and reg: "List.find (\<lambda>r. topicId r = t) regs = Some reg"
    using find_registrationD by blast
  have topic: "topicId reg = t" using reg by (rule find_topic)
  have "reg \<in> set regs" using reg by (auto simp: find_Some_iff)
  then have old: "asyncIterator reg < next_iterator w"
    using wellformed_regs[OF wf regs] by simp
  let ?regs1 = "update_first (\<lambda>r. topicId r = t) (\<lambda>r. r\<lparr>isRegistered := False\<rparr>) regs"
  let ?w1 = "onClientUnsubscribed t c w"
  have w1: "?w1 = w\<lparr>console := console w @ [(Info, ''Client ('' @ c @ '') unsubscribed to : '' @ t)],
       live := live w - {asyncIterator reg},
       loops := filter (\<lambda>l. lp_asyncIterator l \<noteq> asyncIterator reg) (loops w),
       registrations := (registrations w)(c \<mapsto> ?regs1)\<rparr>"
    using regs reg by (rule unsubscribed_found)
  have regs1: "registrations ?w1 c = Some ?regs1" by (simp add: w1)
  have reg1: "List.find (\<lambda>r. topicId r = t) ?regs1 = Some (reg\<lparr>isRegistered := False\<rparr>)"
    by (simp add: find_update_first reg)
  let ?w2 = "onClientSubscribed t c Stream ?w1"
  let ?l = "\<lparr>lp_clientId = c, lp_topicId = t, lp_variables = variables reg,
           lp_asyncIterator = next_iterator w\<rparr>"
  have w2: "?w2 = ?w1\<lparr>console := console ?w1 @ [(Info, ''client ('' @ c @ '') subscribed to : '' @ t)],
       live := insert (next_iterator ?w1) (live ?w1),
       next_iterator := Suc (next_iterator ?w1),
       registrations := (registrations ?w1)(c \<mapsto>
         update_first (\<lambda>r. topicId r = t)
           (\<lambda>r. r\<lparr>asyncIterator := next_iterator ?w1, isRegistered := True\<rparr>) ?regs1),
       loops := loops ?w1 @
         [\<lparr>lp_clientId = c, lp_topicId = t, lp_variables = variables (reg\<lparr>isRegistered := False\<rparr>),
           lp_asyncIterator = next_iterator ?w1\<rparr>]\<rparr>"
    using regs1 reg1 by (rule resubscribed_found) simp
  have n1: "next_iterator ?w1 = next_iterator w" by (simp add: w1)
  have a: "asyncIterator reg \<notin> live ?w1" by (simp add: w1)
  have b: "find_registration ?w1 c t = Some (reg\<lparr>isRegistered := False\<rparr>)"
    using regs1 reg1 by (simp add: find_registration_def)
  have r2: "registrations ?w2 c = Some (update_first (\<lambda>r. topicId r = t)
           (\<lambda>r. r\<lparr>asyncIterator := next_iterator w, isRegistered := True\<rparr>) ?regs1)"
    unfolding w2 n1 by simp
  have c: "find_registration ?w2 c t =
     Some (reg\<lparr>asyncIterator := next_iterator w, isRegistered := True\<rparr>)"
    unfolding find_registration_def r2 by (simp add: find_update_first reg1)
  have d: "next_iterator w \<in> live ?w2" unfolding w2 n1 by simp
  have l1: "loops ?w1 = filter (\<lambda>l. lp_asyncIterator l \<noteq> asyncIterator reg) (loops w)"
    unfolding w1 by simp
  have loops2: "loops ?w2 = filter (\<lambda>l. lp_asyncIterator l \<noteq> asyncIterator reg) (loops w) @ [?l]"
    unfolding w2 n1 by (simp add: l1)
  have "\<forall>l \<in> set (loops w). lp_asyncIterator l \<noteq> next_iterator w"
    using wf by (fastforce simp: wellformed_def)
  then have f: "List.find (\<lambda>l. lp_asyncIterator l = next_iterator w) (loops ?w2) = Some ?l"
    unfolding loops2 by (intro find_append_last) auto
  have p1: "published ?w1 = published w" unfolding w1 by simp
  have p2: "published ?w2 = published w" unfolding w2 by (simp add: p1)
  have e: "shouldPublishSubscription payload (variables reg) = Inr True \<longrightarrow>
    published (deliver (next_iterator w) payload ?w2) =
      published w @ [\<lparr>m_topic = t, m_payload = payload, m_qos = 0, m_retain = False\<rparr>]"
    using deliver_publishes[OF d f, of payload] p2 by simp
  have ne: "next_iterator w \<noteq> asyncIterator reg" using old by simp
  from a l1 b c ne d e show ?thesis by (intro conjI)
qed

theorem unsubscribe_then_resubscribe_witness:
  "0 \<notin> live
     (onClientUnsubscribed ''t1'' ''c1''
       (run [Register ''doc'' (JObj 0 []) \<lparr>jwt_sub = ''c1'', appsyncErrors = JUndefined\<rparr> ''t1'' Stream,
             Subscribed ''t1'' ''c1'' Stream] (new_server ''ws://localhost:1/''))) \<and>
   1 \<in> live
     (onClientSubscribed ''t1'' ''c1'' Stream
       (onClientUnsubscribed ''t1'' ''c1''
         (run [Register ''doc'' (JObj 0 []) \<lparr>jwt_sub = ''c1'', appsyncErrors = JUndefined\<rparr> ''t1'' Stream,
               Subscribed ''t1'' ''c1'' Stream] (new_server ''ws://localhost:1/'')))) \<and>
   published
     (deliver 1 (JObj 1 [(''data'', JObj 2 [(''onCreate'', JObj 3 [(''id'', JStr ''1'')])])])
       (onClientSubscribed ''t1'' ''c1'' Stream
         (onClientUnsubscribed ''t1'' ''c1''
           (run [Register ''doc'' (JObj 0 []) \<lparr>jwt_sub = ''c1'', appsyncErrors = JUndefined\<rparr> ''t1'' Stream,
                 Subscribed ''t1'' ''c1'' Stream] (new_server ''ws://localhost:1/''))))) =
     [\<lparr>m_topic = ''t1'',
       m_payload = JObj 1 [(''data'', JObj 2 [(''onCreate'', JObj 3 [(''id'', JStr ''1'')])])],
       m_qos = 0, m_retain = False\<rparr>]"
  using unsubscribe_then_resubscribe
    [of "run [Register ''doc'' (JObj 0 []) \<lparr>jwt_sub = ''c1'', appsyncErrors = JUndefined\<rparr> ''t1'' Stream,
             Subscribed ''t1'' ''c1'' Stream] (new_server ''ws://localhost:1/'')" "''c1''" "''t1''"
        "\<lparr>r_context = \<lparr>jwt_sub = ''c1'', appsyncErrors = JUndefined\<rparr>, documentAST = ''doc'',
          variables = JObj 0 [], topicId = ''t1'', asyncIterator = 0, isRegistered = True\<rparr>"
        "JObj 1 [(''data'', JObj 2 [(''onCreate'', JObj 3 [(''id'', JStr ''1'')])])]"]
    wellformed_reachable
    [of "[Register ''doc'' (JObj 0 []) \<lparr>jwt_sub = ''c1'', appsyncErrors = JUndefined\<rparr> ''t1'' Stream,
             Subscribed ''t1'' ''c1'' Stream]" "''ws://localhost:1/''"]
  by (simp add: server_defs)




end
